theory Spec2Isabelle
  imports Main "HOL-Library.Word"
begin

section \<open>DTLS flight transmission (lib/gnutls\_dtls.c)\<close>

text \<open>
  A shallow embedding of the three functions of \<^verbatim>\<open>lib/gnutls_dtls.c\<close> that send a
  buffered handshake flight: \<^verbatim>\<open>transmit_message\<close>, \<^verbatim>\<open>drop_usage_count\<close> and
  \<^verbatim>\<open>_gnutls_dtls_transmit\<close>. C identifiers keep their names, without the leading
  underscore that an Isabelle name cannot have.

  \<^item> \<^verbatim>\<open>unsigned int\<close> values are \<open>32 word\<close>: \<open>+\<close> and \<open>-\<close> wrap around as in C.
  \<^item> \<^verbatim>\<open>int\<close> return codes are \<open>int\<close>: the code only compares them.
  \<^item> The two loops that need not end (the fragmentation loop with a zero MTU, the
    retransmission loop with a zero interval) are \<^theory_text>\<open>partial_function (option)\<close>:
    \<open>None\<close> is "no defined return" (the loop runs forever, or the C code reads or
    writes outside a buffer, which is undefined behaviour).
  \<^item> The record layer, the transport and the allocator are not part of this file. Each
    call appends to a log kept in the session, and its result is given by a
    \<open>transport\<close> record of functions of the call's index, so that every sequence of
    results the collaborators can produce is some \<open>transport\<close>.
\<close>

type_synonym opaque = "8 word"
type_synonym uint = "32 word"
type_synonym uint16 = "16 word"

subsection \<open>Constants of the public headers\<close>

text \<open>
  Modelled from the spec: the handshake types, record types and error codes of
  \<^verbatim>\<open>gnutls/gnutls.h\<close> and \<^verbatim>\<open>gnutls_int.h\<close>, which are not among the sources. The
  spec names them (the Finished and Change-Cipher-Spec messages, the handshake
  record type, the timeout, memory and internal errors) without their numbers; they
  are given the numbers of the public header. The general results use only that
  the error codes are negative and that the handshake types 0, Finished and
  Change-Cipher-Spec differ.
\<close>

definition GNUTLS_HANDSHAKE_FINISHED :: int where
  "GNUTLS_HANDSHAKE_FINISHED = 20"

definition GNUTLS_HANDSHAKE_CHANGE_CIPHER_SPEC :: int where
  "GNUTLS_HANDSHAKE_CHANGE_CIPHER_SPEC = 254"

text \<open>Record content types.\<close>

definition GNUTLS_CHANGE_CIPHER_SPEC :: int where
  "GNUTLS_CHANGE_CIPHER_SPEC = 20"

definition GNUTLS_HANDSHAKE :: int where
  "GNUTLS_HANDSHAKE = 22"

definition GNUTLS_E_MEMORY_ERROR :: int where
  "GNUTLS_E_MEMORY_ERROR = - 25"

definition GNUTLS_E_INVALID_REQUEST :: int where
  "GNUTLS_E_INVALID_REQUEST = - 50"

definition GNUTLS_E_INTERNAL_ERROR :: int where
  "GNUTLS_E_INTERNAL_ERROR = - 59"

definition GNUTLS_E_TIMEDOUT :: int where
  "GNUTLS_E_TIMEDOUT = - 319"

definition DTLS_HANDSHAKE_HEADER_SIZE :: uint where
  "DTLS_HANDSHAKE_HEADER_SIZE = 12"

datatype gnutls_entity = GNUTLS_SERVER | GNUTLS_CLIENT

datatype resumable_session = RESUME_TRUE | RESUME_FALSE

subsection \<open>Data\<close>

text \<open>
  \<^verbatim>\<open>mbuffer_st\<close>: one buffered handshake message. \<open>uhead\<close> and \<open>udata\<close> are the byte
  ranges that \<^verbatim>\<open>_mbuffer_get_uhead_ptr/_size\<close> and \<^verbatim>\<open>_mbuffer_get_udata_ptr/_size\<close>
  return.
\<close>

record mbuffer_st =
  htype :: int
  sequence :: uint16
  epoch :: uint16
  uhead :: "opaque list"
  udata :: "opaque list"

text \<open>\<^verbatim>\<open>record_parameters_st\<close>: of an epoch's parameters only the usage count is used.\<close>

record record_parameters_st =
  usage_cnt :: int

text \<open>The arguments of one call of \<^verbatim>\<open>_gnutls_send_int\<close> (the length is that of \<open>s_data\<close>).\<close>

record send_args =
  s_type :: int
  s_htype :: int
  s_epoch :: uint16
  s_data :: "opaque list"

text \<open>
  The fields of \<^verbatim>\<open>gnutls_session_t\<close> that the three functions read or write, and the
  logs of the calls made to the collaborators: the writes handed to the record
  layer, the number of flushes, the bounded waits (requested length and timeout)
  and the number of allocations.
\<close>

record session =
  hsk_mtu :: uint
  retrans_timeout :: uint
  dtls_total_timeout :: uint
  entity :: gnutls_entity
  resumed :: resumable_session
  handshake_send_buffer :: "mbuffer_st list"
  epochs :: "uint16 \<rightharpoonup> record_parameters_st"
  sent :: "send_args list"
  flushes :: nat
  recvs :: "(nat \<times> uint) list"
  mallocs :: nat

text \<open>
  The collaborators. \<open>send_int tr n a\<close> is what the \<open>n\<close>-th call of
  \<^verbatim>\<open>_gnutls_send_int\<close> returns when its arguments are \<open>a\<close>; \<open>io_write_flush tr n\<close> what
  the \<open>n\<close>-th flush returns; \<open>io_check_recv tr n\<close> the result of the \<open>n\<close>-th bounded
  wait and the byte it leaves in the caller's buffer; \<open>malloc_ok tr n\<close> whether the
  \<open>n\<close>-th allocation succeeds.
\<close>

record transport =
  send_int :: "nat \<Rightarrow> send_args \<Rightarrow> int"
  io_write_flush :: "nat \<Rightarrow> int"
  io_check_recv :: "nat \<Rightarrow> int \<times> opaque"
  malloc_ok :: "nat \<Rightarrow> bool"

subsection \<open>Calls to the collaborators\<close>

definition gnutls_send_int :: "transport \<Rightarrow> send_args \<Rightarrow> session \<Rightarrow> int \<times> session" where
  "gnutls_send_int tr a s = (send_int tr (length (sent s)) a, s\<lparr>sent := sent s @ [a]\<rparr>)"

definition gnutls_io_write_flush :: "transport \<Rightarrow> session \<Rightarrow> int \<times> session" where
  "gnutls_io_write_flush tr s = (io_write_flush tr (flushes s), s\<lparr>flushes := Suc (flushes s)\<rparr>)"

definition gnutls_io_check_recv ::
  "transport \<Rightarrow> nat \<Rightarrow> uint \<Rightarrow> session \<Rightarrow> (int \<times> opaque) \<times> session" where
  "gnutls_io_check_recv tr data_size ms s =
     (io_check_recv tr (length (recvs s)), s\<lparr>recvs := recvs s @ [(data_size, ms)]\<rparr>)"

definition gnutls_malloc :: "transport \<Rightarrow> session \<Rightarrow> bool \<times> session" where
  "gnutls_malloc tr s = (malloc_ok tr (mallocs s), s\<lparr>mallocs := Suc (mallocs s)\<rparr>)"

text \<open>
  Modelled from the spec: \<^verbatim>\<open>_gnutls_write_uint24\<close> and \<^verbatim>\<open>_gnutls_write_uint16\<close>
  (gnutls\_num.c is not among the sources). The header fields are big-endian, three
  and two bytes wide; of a wider value the low bits are written.
\<close>

definition gnutls_write_uint24 :: "uint \<Rightarrow> opaque list" where
  "gnutls_write_uint24 num = [ucast (drop_bit 16 num), ucast (drop_bit 8 num), ucast num]"

definition gnutls_write_uint16 :: "uint16 \<Rightarrow> opaque list" where
  "gnutls_write_uint16 num = [ucast (drop_bit 8 num), ucast num]"

text \<open>
  Modelled from the spec: \<^verbatim>\<open>_gnutls_epoch_get\<close> (gnutls\_constate.c is not among the
  sources): the lookup of an epoch's parameters, which fails with a negative code
  when the epoch is not in the table.
\<close>

definition gnutls_epoch_get :: "session \<Rightarrow> uint16 \<Rightarrow> int + record_parameters_st" where
  "gnutls_epoch_get s e = (case epochs s e of None \<Rightarrow> Inl GNUTLS_E_INVALID_REQUEST | Some params \<Rightarrow> Inr params)"

text \<open>
  Modelled from the spec: \<^verbatim>\<open>_mbuffer_clear\<close> (gnutls\_mbuffers.c is not among the
  sources) empties the buffer.
\<close>

definition mbuffer_clear :: "session \<Rightarrow> session" where
  "mbuffer_clear s = s\<lparr>handshake_send_buffer := []\<rparr>"

subsection \<open>transmit\_message\<close>

text \<open>
  The content of \<^verbatim>\<open>mtu_data\<close> when a fragment is sent: the fixed header fields
  written before the loop (type, total length, sequence), the fragment offset and
  length, and the bytes copied from \<^verbatim>\<open>data + offset\<close>.
\<close>

definition fragment_bytes :: "mbuffer_st \<Rightarrow> uint \<Rightarrow> uint \<Rightarrow> uint \<Rightarrow> opaque list" where
  "fragment_bytes bufel data_size offset frag_len =
     [word_of_int (htype bufel)] @ gnutls_write_uint24 data_size
       @ gnutls_write_uint16 (sequence bufel)
       @ gnutls_write_uint24 offset @ gnutls_write_uint24 frag_len
       @ take (unat frag_len) (drop (unat offset) (udata bufel))"

definition fragment_args :: "mbuffer_st \<Rightarrow> uint \<Rightarrow> uint \<Rightarrow> uint \<Rightarrow> send_args" where
  "fragment_args bufel data_size offset frag_len =
     \<lparr>s_type = GNUTLS_HANDSHAKE, s_htype = htype bufel, s_epoch = epoch bufel,
      s_data = fragment_bytes bufel data_size offset frag_len\<rparr>"

text \<open>
  The \<^verbatim>\<open>for\<close> loop of \<^verbatim>\<open>transmit_message\<close>, entered with the current \<open>offset\<close> and
  \<open>ret\<close>. The \<^verbatim>\<open>memcpy\<close> has no defined result when it reads past the message or
  writes past the \<open>mtu + 12\<close> bytes allocated. Logging, \<^verbatim>\<open>gnutls_assert_val\<close> (which
  returns its argument) and \<^verbatim>\<open>gnutls_free\<close> leave no trace in the model.
\<close>

partial_function (option) fragment_loop ::
  "transport \<Rightarrow> mbuffer_st \<Rightarrow> uint \<Rightarrow> uint \<Rightarrow> uint \<Rightarrow> int \<Rightarrow> session \<Rightarrow> (int \<times> session) option" where
  "fragment_loop tr bufel mtu data_size offset ret s =
     (if offset \<le> data_size then
        let frag_len = (if offset + mtu > data_size then data_size - offset else mtu) in
        if unat offset + unat frag_len > length (udata bufel)
           \<or> unat DTLS_HANDSHAKE_HEADER_SIZE + unat frag_len > unat (mtu + DTLS_HANDSHAKE_HEADER_SIZE)
        then None
        else
          let r = gnutls_send_int tr (fragment_args bufel data_size offset frag_len) s in
          if fst r < 0 then Some r
          else fragment_loop tr bufel mtu data_size (offset + mtu) (fst r) (snd r)
      else Some (ret, s))"

definition transmit_message :: "transport \<Rightarrow> mbuffer_st \<Rightarrow> session \<Rightarrow> (int \<times> session) option" where
  "transmit_message tr bufel s =
     (let mtu = hsk_mtu s in
      if htype bufel = GNUTLS_HANDSHAKE_CHANGE_CIPHER_SPEC then
        Some (gnutls_send_int tr
          \<lparr>s_type = GNUTLS_CHANGE_CIPHER_SPEC, s_htype = - 1, s_epoch = epoch bufel,
           s_data = uhead bufel\<rparr> s)
      else
        let m = gnutls_malloc tr s in
        if \<not> fst m then Some (GNUTLS_E_MEMORY_ERROR, snd m)
        else if unat (mtu + DTLS_HANDSHAKE_HEADER_SIZE) < unat DTLS_HANDSHAKE_HEADER_SIZE then None
        else fragment_loop tr bufel mtu (of_nat (length (udata bufel))) 0 0 (snd m))"

subsection \<open>drop\_usage\_count\<close>

text \<open>
  The loop over the send buffer, from the element \<open>cur\<close> on: the count is lowered
  first and compared with 0 after, and the first error ends the loop.
\<close>

fun drop_usage_count_from :: "mbuffer_st list \<Rightarrow> session \<Rightarrow> int \<times> session" where
  "drop_usage_count_from [] s = (0, s)"
| "drop_usage_count_from (cur # rest) s =
     (case gnutls_epoch_get s (epoch cur) of
        Inl ret \<Rightarrow> (ret, s)
      | Inr params \<Rightarrow>
          let params' = params\<lparr>usage_cnt := usage_cnt params - 1\<rparr>;
              s' = s\<lparr>epochs := (epochs s)(epoch cur \<mapsto> params')\<rparr>
          in if usage_cnt params' < 0 then (GNUTLS_E_INTERNAL_ERROR, s')
             else drop_usage_count_from rest s')"

definition drop_usage_count :: "session \<Rightarrow> int \<times> session" where
  "drop_usage_count s = drop_usage_count_from (handshake_send_buffer s) s"

subsection \<open>\_gnutls\_dtls\_transmit\<close>

text \<open>
  The inner \<^verbatim>\<open>for\<close> loop over the send buffer, from the element \<open>cur\<close> on: the
  result of \<^verbatim>\<open>transmit_message\<close> is not looked at, and \<open>last_type\<close> is returned.
\<close>

fun send_flight :: "transport \<Rightarrow> mbuffer_st list \<Rightarrow> int \<Rightarrow> session \<Rightarrow> (int \<times> session) option" where
  "send_flight tr [] last_type s = Some (last_type, s)"
| "send_flight tr (cur # rest) last_type s =
     (case transmit_message tr cur s of
        None \<Rightarrow> None
      | Some r \<Rightarrow> send_flight tr rest (htype cur) (snd r))"

text \<open>The condition of the "last message in handshake" branch.\<close>

definition last_flight_finished :: "session \<Rightarrow> int \<Rightarrow> bool" where
  "last_flight_finished s last_type \<longleftrightarrow>
     last_type = GNUTLS_HANDSHAKE_FINISHED \<and>
     ((entity s = GNUTLS_SERVER \<and> resumed s = RESUME_FALSE) \<or>
      (entity s = GNUTLS_CLIENT \<and> resumed s = RESUME_TRUE))"

text \<open>
  The waiting step (the \<^verbatim>\<open>if\<close>/\<^verbatim>\<open>else\<close> after the flush): the value left in \<open>ret\<close>
  and the session. Both branches then add the interval to \<open>total_timeout\<close>.
\<close>

definition await_response :: "transport \<Rightarrow> int \<Rightarrow> session \<Rightarrow> int \<times> session" where
  "await_response tr last_type s =
     (if last_flight_finished s last_type then
        let w = gnutls_io_check_recv tr 1 (retrans_timeout s) s;
            ret = fst (fst w); c = snd (fst w)
        in ((if ret = GNUTLS_E_TIMEDOUT then 0
             else if ret \<ge> 0 then (if uint c = GNUTLS_HANDSHAKE then GNUTLS_E_TIMEDOUT else ret)
             else ret), snd w)
      else
        let w = gnutls_io_check_recv tr 0 (retrans_timeout s) s
        in (fst (fst w), snd w))"

text \<open>
  How the \<^verbatim>\<open>do\<close> loop is left: by the \<^verbatim>\<open>return\<close> after a failed flush, by the
  \<^verbatim>\<open>goto cleanup\<close> of the deadline check, or by its condition becoming false.
\<close>

datatype loop_exit = Return_stmt | Goto_cleanup | Loop_end

text \<open>
  The \<^verbatim>\<open>do\<close> loop, entered with the local variables \<open>total_timeout\<close> and
  \<open>last_type\<close>. It yields the way out, \<open>ret\<close>, \<open>total_timeout\<close> and the session.
\<close>

partial_function (option) transmit_loop ::
  "transport \<Rightarrow> uint \<Rightarrow> int \<Rightarrow> session \<Rightarrow> (loop_exit \<times> int \<times> uint \<times> session) option" where
  "transmit_loop tr total_timeout last_type s =
     (case send_flight tr (handshake_send_buffer s) last_type s of
        None \<Rightarrow> None
      | Some f \<Rightarrow>
          let fl = gnutls_io_write_flush tr (snd f) in
          if fst fl < 0 then Some (Return_stmt, fst fl, total_timeout, snd fl)
          else
            let w = await_response tr (fst f) (snd fl);
                total_timeout' = total_timeout + retrans_timeout (snd w)
            in if total_timeout' \<ge> dtls_total_timeout (snd w)
               then Some (Goto_cleanup, GNUTLS_E_TIMEDOUT, total_timeout', snd w)
               else if fst w = GNUTLS_E_TIMEDOUT
               then transmit_loop tr total_timeout' (fst f) (snd w)
               else Some (Loop_end, fst w, total_timeout', snd w))"

text \<open>The code at and after the label \<^verbatim>\<open>cleanup\<close>.\<close>

definition cleanup :: "int \<Rightarrow> session \<Rightarrow> int \<times> session" where
  "cleanup ret s = (ret, mbuffer_clear (snd (drop_usage_count s)))"

definition gnutls_dtls_transmit :: "transport \<Rightarrow> session \<Rightarrow> (int \<times> session) option" where
  "gnutls_dtls_transmit tr s =
     (case transmit_loop tr 0 0 s of
        None \<Rightarrow> None
      | Some (Return_stmt, ret, total_timeout, s') \<Rightarrow> Some (ret, s')
      | Some (Goto_cleanup, ret, total_timeout, s') \<Rightarrow> Some (cleanup ret s')
      | Some (Loop_end, ret, total_timeout, s') \<Rightarrow>
          if ret < 0 then Some (cleanup ret s') else Some (cleanup 0 s'))"


subsection \<open>Notions used in the statements\<close>

text \<open>
  The \<open>k\<close>-th fragment of a message under an MTU: what is handed to the record layer
  for the offset \<open>k * mtu\<close>, with the length that is left there, at most \<open>mtu\<close>.
\<close>

definition nth_fragment :: "mbuffer_st \<Rightarrow> uint \<Rightarrow> nat \<Rightarrow> send_args" where
  "nth_fragment bufel mtu k =
     fragment_args bufel (of_nat (length (udata bufel))) (of_nat (k * unat mtu))
       (of_nat (min (unat mtu) (length (udata bufel) - k * unat mtu)))"

text \<open>The bytes of a fragment after its 12-byte header.\<close>

definition fragment_payload :: "send_args \<Rightarrow> opaque list" where
  "fragment_payload a = drop 12 (s_data a)"

text \<open>The value of \<open>last_type\<close> after the loop over the send buffer.\<close>

definition last_type_after :: "mbuffer_st list \<Rightarrow> int \<Rightarrow> int" where
  "last_type_after bufs last_type = (if bufs = [] then last_type else htype (last bufs))"

text \<open>
  The sizes for which the fragmentation arithmetic does not wrap around: a
  non-zero MTU that leaves room for the header in an \<^verbatim>\<open>unsigned int\<close>, and a
  message shorter than \<open>2 ^ 31\<close> bytes.
\<close>

definition mtu_fits :: "uint \<Rightarrow> bool" where
  "mtu_fits mtu \<longleftrightarrow> mtu \<noteq> 0 \<and> unat mtu + 12 < 2 ^ 32"

definition flight_fits :: "session \<Rightarrow> bool" where
  "flight_fits s \<longleftrightarrow>
     mtu_fits (hsk_mtu s) \<and> list_all (\<lambda>b. length (udata b) < 2 ^ 31) (handshake_send_buffer s)"

subsection \<open>A sample flight\<close>

text \<open>
  A client's flight of three messages under an MTU of two bytes, and a transport on
  which every write and flush succeeds and every wait times out.
\<close>

definition example_transport :: transport where
  "example_transport =
     \<lparr>send_int = (\<lambda>n a. int (length (s_data a))), io_write_flush = (\<lambda>n. 0),
      io_check_recv = (\<lambda>n. (GNUTLS_E_TIMEDOUT, 0)), malloc_ok = (\<lambda>n. True)\<rparr>"

definition example_hello :: mbuffer_st where
  "example_hello = \<lparr>htype = 1, sequence = 0, epoch = 0, uhead = [], udata = [1, 2, 3, 4, 5]\<rparr>"

definition example_ccs :: mbuffer_st where
  "example_ccs = \<lparr>htype = 254, sequence = 0, epoch = 0, uhead = [1], udata = []\<rparr>"

definition example_finished :: mbuffer_st where
  "example_finished = \<lparr>htype = 20, sequence = 1, epoch = 1, uhead = [], udata = [6, 7, 8, 9]\<rparr>"

definition example_session :: session where
  "example_session =
     \<lparr>hsk_mtu = 2, retrans_timeout = 1000, dtls_total_timeout = 60000,
      entity = GNUTLS_CLIENT, resumed = RESUME_FALSE,
      handshake_send_buffer = [example_hello, example_ccs, example_finished],
      epochs = [0 \<mapsto> \<lparr>usage_cnt = 2\<rparr>, 1 \<mapsto> \<lparr>usage_cnt = 1\<rparr>],
      sent = [], flushes = 0, recvs = [], mallocs = 0\<rparr>"

text \<open>
  Variants of the sample: a transport on which the peer answers the first wait, one
  whose flush fails, one whose writes fail (with \<open>-53\<close>, the push error of the
  public header) and one whose allocations fail; sessions holding one message only,
  a server's session, a session whose epoch has no usage left, one whose epoch is
  not in the table, and sessions with short deadlines; a transport whose every wait
  reads a byte of the handshake record type.
\<close>

definition responsive_transport :: transport where
  "responsive_transport = example_transport\<lparr>io_check_recv := (\<lambda>n. (0, 0))\<rparr>"

definition failing_flush_transport :: transport where
  "failing_flush_transport = example_transport\<lparr>io_write_flush := (\<lambda>n. - 53)\<rparr>"

definition failing_send_transport :: transport where
  "failing_send_transport = responsive_transport\<lparr>send_int := (\<lambda>n a. - 53)\<rparr>"

definition failing_malloc_transport :: transport where
  "failing_malloc_transport = responsive_transport\<lparr>malloc_ok := (\<lambda>n. False)\<rparr>"

definition ccs_session :: session where
  "ccs_session = example_session\<lparr>handshake_send_buffer := [example_ccs]\<rparr>"

definition hello_session :: session where
  "hello_session = example_session\<lparr>handshake_send_buffer := [example_hello]\<rparr>"

definition server_session :: session where
  "server_session = example_session\<lparr>entity := GNUTLS_SERVER\<rparr>"

definition server_finished_session :: session where
  "server_finished_session =
     example_session\<lparr>entity := GNUTLS_SERVER, handshake_send_buffer := [example_finished]\<rparr>"

definition empty_session :: session where
  "empty_session = example_session\<lparr>handshake_send_buffer := []\<rparr>"

definition exhausted_session :: session where
  "exhausted_session = ccs_session\<lparr>epochs := [0 \<mapsto> \<lparr>usage_cnt = 0\<rparr>]\<rparr>"

definition unknown_epoch_session :: session where
  "unknown_epoch_session = ccs_session\<lparr>epochs := Map.empty\<rparr>"

definition short_deadline_session :: session where
  "short_deadline_session = ccs_session\<lparr>retrans_timeout := 2, dtls_total_timeout := 3\<rparr>"

definition zero_deadline_session :: session where
  "zero_deadline_session = ccs_session\<lparr>retrans_timeout := 2, dtls_total_timeout := 0\<rparr>"

definition tight_deadline_session :: session where
  "tight_deadline_session = ccs_session\<lparr>dtls_total_timeout := 1000\<rparr>"

definition tight_finished_session :: session where
  "tight_finished_session = server_finished_session\<lparr>dtls_total_timeout := 1000\<rparr>"

definition handshake_byte_transport :: transport where
  "handshake_byte_transport = example_transport\<lparr>io_check_recv := (\<lambda>n. (1, 22))\<rparr>"

definition ccs_args :: send_args where
  "ccs_args = \<lparr>s_type = GNUTLS_CHANGE_CIPHER_SPEC, s_htype = - 1, s_epoch = 0, s_data = [1]\<rparr>"

definition hello_fragment :: send_args where
  "hello_fragment =
     \<lparr>s_type = GNUTLS_HANDSHAKE, s_htype = 1, s_epoch = 0,
      s_data = [1, 0, 0, 5, 0, 0, 0, 0, 0, 0, 0, 2, 1, 2]\<rparr>"

section \<open>Properties\<close>

subsection \<open>The fragmentation loop\<close>

text \<open>
  One iteration at an offset \<open>j * mtu\<close> inside the message, in the range where nothing
  wraps: the fragment length is the smaller of the MTU and what is left, and the
  next offset is \<open>(j + 1) * mtu\<close>.
\<close>

lemma fragment_loop_step:
  assumes M: "mtu \<noteq> 0" and cap: "unat mtu + 12 < 2 ^ 32"
    and L: "length (udata b) < 2 ^ 31"
    and off: "unat offset = j * unat mtu" and le: "unat offset \<le> length (udata b)"
  shows "fragment_loop tr b mtu (of_nat (length (udata b))) offset ret s =
     (let frag_len = of_nat (min (unat mtu) (length (udata b) - unat offset));
          r = gnutls_send_int tr (fragment_args b (of_nat (length (udata b))) offset frag_len) s
      in if fst r < 0 then Some r
         else fragment_loop tr b mtu (of_nat (length (udata b))) (offset + mtu) (fst r) (snd r))"
    and "unat (offset + mtu) = Suc j * unat mtu"
proof -
  let ?L = "length (udata b)"
  let ?ds = "of_nat ?L :: uint"
  have uds: "unat ?ds = ?L" using L by (simp add: unat_of_nat)
  have M0: "0 < unat mtu" using M by (simp add: unat_gt_0)
  have nowrap: "unat offset + unat mtu < 2 ^ 32"
  proof (cases j)
    case 0 then show ?thesis using off cap by simp
  next
    case (Suc k)
    then have "unat mtu \<le> unat offset" using off by simp
    then show ?thesis using le L by simp
  qed
  then have uadd: "unat (offset + mtu) = unat offset + unat mtu"
    by (simp add: unat_add_lem [THEN iffD1])
  show "unat (offset + mtu) = Suc j * unat mtu" using uadd off by simp
  have ole: "offset \<le> ?ds" using le uds by (simp add: word_le_nat_alt)
  define frag_len where "frag_len = (if offset + mtu > ?ds then ?ds - offset else mtu)"
  have usub: "unat (?ds - offset) = ?L - unat offset"
    using ole uds by (simp add: unat_sub)
  have fl: "frag_len = of_nat (min (unat mtu) (?L - unat offset))"
  proof (cases "offset + mtu > ?ds")
    case True
    then have "?L < unat offset + unat mtu" using uadd uds by (simp add: word_less_nat_alt)
    then have "min (unat mtu) (?L - unat offset) = ?L - unat offset" by simp
    then have "unat (?ds - offset) = min (unat mtu) (?L - unat offset)" using usub by simp
    then have "?ds - offset = of_nat (min (unat mtu) (?L - unat offset))"
      by (metis of_nat_unat ucast_id)
    then show ?thesis using True frag_len_def by simp
  next
    case False
    then have "unat offset + unat mtu \<le> ?L" using uadd uds by (simp add: word_less_nat_alt)
    then have "min (unat mtu) (?L - unat offset) = unat mtu" by simp
    then show ?thesis using False frag_len_def by simp
  qed
  have ufl: "unat frag_len = min (unat mtu) (?L - unat offset)"
    unfolding fl using L by (simp add: unat_of_nat min_def)
  have cap': "unat (mtu + DTLS_HANDSHAKE_HEADER_SIZE) = unat mtu + 12"
    using cap by (simp add: DTLS_HANDSHAKE_HEADER_SIZE_def unat_add_lem [THEN iffD1])
  have noub: "\<not> (unat offset + unat frag_len > ?L
     \<or> unat DTLS_HANDSHAKE_HEADER_SIZE + unat frag_len > unat (mtu + DTLS_HANDSHAKE_HEADER_SIZE))"
    using ufl le cap' by (simp add: DTLS_HANDSHAKE_HEADER_SIZE_def)
  show "fragment_loop tr b mtu ?ds offset ret s =
     (let frag_len = of_nat (min (unat mtu) (?L - unat offset));
          r = gnutls_send_int tr (fragment_args b ?ds offset frag_len) s
      in if fst r < 0 then Some r
         else fragment_loop tr b mtu ?ds (offset + mtu) (fst r) (snd r))"
    apply (subst fragment_loop.simps)
    using ole noub fl unfolding frag_len_def Let_def
    by simp
qed

lemma fragment_loop_exit:
  assumes L: "length (udata b) < 2 ^ 31" and gt: "unat offset > length (udata b)"
  shows "fragment_loop tr b mtu (of_nat (length (udata b))) offset ret s = Some (ret, s)"
proof -
  have uds: "unat (of_nat (length (udata b)) :: uint) = length (udata b)" using L by (simp add: unat_of_nat)
  have "\<not> offset \<le> (of_nat (length (udata b)) :: uint)" using gt uds by (simp add: word_le_nat_alt)
  then show ?thesis by (subst fragment_loop.simps) simp
qed


lemma div_mult_gt:
  fixes L M :: nat
  assumes "0 < M" and "L div M < j"
  shows "L < j * M"
proof -
  have "L < Suc (L div M) * M" using assms(1) by (metis dividend_less_div_times mult.commute mult_Suc)
  also have "\<dots> \<le> j * M" using assms(2) by (intro mult_le_mono1) simp
  finally show ?thesis .
qed

lemma div_mult_le:
  fixes L M :: nat
  assumes "j \<le> L div M"
  shows "j * M \<le> L"
proof -
  have "j * M \<le> (L div M) * M" using assms by (rule mult_le_mono1)
  also have "\<dots> \<le> L" by simp
  finally show ?thesis .
qed

text \<open>
  The loop returns whatever the writes return, and changes the write log only.
\<close>

lemma fragment_loop_frame:
  assumes M: "mtu \<noteq> 0" and cap: "unat mtu + 12 < 2 ^ 32"
    and L: "length (udata b) < 2 ^ 31"
  shows "unat offset = j * unat mtu \<Longrightarrow>
    \<exists>r ws. fragment_loop tr b mtu (of_nat (length (udata b))) offset ret s
              = Some (r, s\<lparr>sent := sent s @ ws\<rparr>)"
proof (induction "Suc (length (udata b) div unat mtu) - j" arbitrary: j offset ret s)
  case 0
  have M0: "0 < unat mtu" using M by (simp add: unat_gt_0)
  from 0 have "length (udata b) div unat mtu < j" by simp
  then have "length (udata b) < unat offset" using div_mult_gt [OF M0] 0 by simp
  then have "fragment_loop tr b mtu (of_nat (length (udata b))) offset ret s = Some (ret, s\<lparr>sent := sent s @ []\<rparr>)"
    using fragment_loop_exit [OF L] by simp
  then show ?case by blast
next
  case (Suc n)
  then have "j \<le> length (udata b) div unat mtu" by simp
  then have le: "unat offset \<le> length (udata b)" using div_mult_le Suc.prems by simp
  note step = fragment_loop_step [OF M cap L Suc.prems le]
  define a where "a = fragment_args b (of_nat (length (udata b))) offset
        (of_nat (min (unat mtu) (length (udata b) - unat offset)))"
  show ?case
  proof (cases "send_int tr (length (sent s)) a < 0")
    case True
    then have "fragment_loop tr b mtu (of_nat (length (udata b))) offset ret s
        = Some (send_int tr (length (sent s)) a, s\<lparr>sent := sent s @ [a]\<rparr>)"
      by (simp add: step(1) [of tr ret s] a_def Let_def gnutls_send_int_def)
    then show ?thesis by blast
  next
    case False
    have n: "n = Suc (length (udata b) div unat mtu) - Suc j" using Suc.hyps(2) by simp
    obtain r ws where
      "fragment_loop tr b mtu (of_nat (length (udata b))) (offset + mtu)
         (send_int tr (length (sent s)) a) (s\<lparr>sent := sent s @ [a]\<rparr>)
        = Some (r, s\<lparr>sent := sent s @ [a]\<rparr>\<lparr>sent := sent (s\<lparr>sent := sent s @ [a]\<rparr>) @ ws\<rparr>)"
      using Suc.hyps(1) [OF n step(2)] by blast
    then have "fragment_loop tr b mtu (of_nat (length (udata b))) offset ret s
        = Some (r, s\<lparr>sent := sent s @ (a # ws)\<rparr>)"
      using False by (simp add: step(1) [of tr ret s] a_def Let_def gnutls_send_int_def)
    then show ?thesis by blast
  qed
qed

text \<open>When no write fails, the fragments \<open>j, \<dots>, L div mtu\<close> are sent in this order.\<close>

lemma fragment_loop_all_sent:
  assumes M: "mtu \<noteq> 0" and cap: "unat mtu + 12 < 2 ^ 32"
    and L: "length (udata b) < 2 ^ 31"
    and ok: "\<And>n a. 0 \<le> send_int tr n a"
  shows "unat offset = j * unat mtu \<Longrightarrow> 0 \<le> ret \<Longrightarrow>
    \<exists>r\<ge>0. fragment_loop tr b mtu (of_nat (length (udata b))) offset ret s
              = Some (r, s\<lparr>sent := sent s @ map (nth_fragment b mtu) [j..<Suc (length (udata b) div unat mtu)]\<rparr>)"
proof (induction "Suc (length (udata b) div unat mtu) - j" arbitrary: j offset ret s)
  case 0
  have M0: "0 < unat mtu" using M by (simp add: unat_gt_0)
  from 0 have j: "length (udata b) div unat mtu < j" by simp
  then have "length (udata b) < unat offset" using div_mult_gt [OF M0] 0 by simp
  then have "fragment_loop tr b mtu (of_nat (length (udata b))) offset ret s = Some (ret, s\<lparr>sent := sent s @ []\<rparr>)"
    using fragment_loop_exit [OF L] by simp
  then show ?case using j 0 by simp
next
  case (Suc n)
  then have j: "j \<le> length (udata b) div unat mtu" by simp
  then have le: "unat offset \<le> length (udata b)" using div_mult_le Suc.prems by simp
  note step = fragment_loop_step [OF M cap L Suc.prems(1) le]
  have offw: "offset = of_nat (j * unat mtu)" using Suc.prems(1) by (metis of_nat_unat ucast_id)
  define a where "a = nth_fragment b mtu j"
  have a: "fragment_args b (of_nat (length (udata b))) offset
        (of_nat (min (unat mtu) (length (udata b) - unat offset))) = a"
    unfolding a_def nth_fragment_def using offw Suc.prems(1) by simp
  have n: "n = Suc (length (udata b) div unat mtu) - Suc j" using Suc.hyps(2) by simp
  have nonneg: "\<not> send_int tr (length (sent s)) a < 0" "0 \<le> send_int tr (length (sent s)) a"
    using ok [of "length (sent s)" a] by simp_all
  obtain r where r: "0 \<le> r"
      "fragment_loop tr b mtu (of_nat (length (udata b))) (offset + mtu)
         (send_int tr (length (sent s)) a) (s\<lparr>sent := sent s @ [a]\<rparr>)
        = Some (r, s\<lparr>sent := sent s @ [a]\<rparr>\<lparr>sent := sent (s\<lparr>sent := sent s @ [a]\<rparr>)
            @ map (nth_fragment b mtu) [Suc j..<Suc (length (udata b) div unat mtu)]\<rparr>)"
    using Suc.hyps(1) [OF n step(2) nonneg(2)] by blast
  have upt: "[j..<Suc (length (udata b) div unat mtu)] = j # [Suc j..<Suc (length (udata b) div unat mtu)]"
    using j by (simp add: upt_conv_Cons)
  have "fragment_loop tr b mtu (of_nat (length (udata b))) offset ret s
        = Some (r, s\<lparr>sent := sent s @ map (nth_fragment b mtu) [j..<Suc (length (udata b) div unat mtu)]\<rparr>)"
    using nonneg(1) r(2) unfolding upt
    by (simp add: step(1) [of tr ret s] a Let_def gnutls_send_int_def a_def [symmetric])
  then show ?case using r(1) by blast
qed

subsection \<open>Frames: what a message, a flight and a round change\<close>

lemma transmit_message_frame:
  assumes fits: "mtu_fits (hsk_mtu s)" and L: "length (udata b) < 2 ^ 31"
  shows "\<exists>r ws m. transmit_message tr b s = Some (r, s\<lparr>sent := sent s @ ws, mallocs := m\<rparr>)"
proof (cases "htype b = GNUTLS_HANDSHAKE_CHANGE_CIPHER_SPEC")
  case True
  then have "transmit_message tr b s =
      Some (send_int tr (length (sent s))
              \<lparr>s_type = GNUTLS_CHANGE_CIPHER_SPEC, s_htype = - 1, s_epoch = epoch b, s_data = uhead b\<rparr>,
            s\<lparr>sent := sent s @ [\<lparr>s_type = GNUTLS_CHANGE_CIPHER_SPEC, s_htype = - 1, s_epoch = epoch b,
                 s_data = uhead b\<rparr>], mallocs := mallocs s\<rparr>)"
    by (simp add: transmit_message_def gnutls_send_int_def)
  then show ?thesis by blast
next
  case False
  note nccs = False
  show ?thesis
  proof (cases "malloc_ok tr (mallocs s)")
    case False
    then have "transmit_message tr b s
        = Some (GNUTLS_E_MEMORY_ERROR, s\<lparr>sent := sent s @ [], mallocs := Suc (mallocs s)\<rparr>)"
      using nccs by (simp add: transmit_message_def gnutls_malloc_def)
    then show ?thesis by blast
  next
    case True
    have M: "hsk_mtu s \<noteq> 0" and cap: "unat (hsk_mtu s) + 12 < 2 ^ 32"
      using fits by (simp_all add: mtu_fits_def)
    have cap': "\<not> unat (hsk_mtu s + DTLS_HANDSHAKE_HEADER_SIZE) < unat DTLS_HANDSHAKE_HEADER_SIZE"
      using cap by (simp add: DTLS_HANDSHAKE_HEADER_SIZE_def unat_add_lem [THEN iffD1])
    obtain r ws where
      "fragment_loop tr b (hsk_mtu s) (of_nat (length (udata b))) 0 0 (s\<lparr>mallocs := Suc (mallocs s)\<rparr>)
         = Some (r, s\<lparr>mallocs := Suc (mallocs s)\<rparr>\<lparr>sent := sent (s\<lparr>mallocs := Suc (mallocs s)\<rparr>) @ ws\<rparr>)"
      using fragment_loop_frame [OF M cap L, of 0 0] by (metis mult_zero_left unat_0)
    then have "transmit_message tr b s = Some (r, s\<lparr>sent := sent s @ ws, mallocs := Suc (mallocs s)\<rparr>)"
      using nccs True cap' by (simp add: transmit_message_def gnutls_malloc_def)
    then show ?thesis by blast
  qed
qed

lemma transmit_message_fragments:
  assumes nccs: "htype b \<noteq> GNUTLS_HANDSHAKE_CHANGE_CIPHER_SPEC"
    and fits: "mtu_fits (hsk_mtu s)" and L: "length (udata b) < 2 ^ 31"
    and mem: "malloc_ok tr (mallocs s)"
    and ok: "\<And>n a. 0 \<le> send_int tr n a"
  shows "\<exists>r\<ge>0. transmit_message tr b s =
     Some (r, s\<lparr>sent := sent s @ map (nth_fragment b (hsk_mtu s))
                     [0..<Suc (length (udata b) div unat (hsk_mtu s))],
              mallocs := Suc (mallocs s)\<rparr>)"
proof -
  have M: "hsk_mtu s \<noteq> 0" and cap: "unat (hsk_mtu s) + 12 < 2 ^ 32"
    using fits by (simp_all add: mtu_fits_def)
  have cap': "\<not> unat (hsk_mtu s + DTLS_HANDSHAKE_HEADER_SIZE) < unat DTLS_HANDSHAKE_HEADER_SIZE"
    using cap by (simp add: DTLS_HANDSHAKE_HEADER_SIZE_def unat_add_lem [THEN iffD1])
  obtain r where r: "0 \<le> r"
    "fragment_loop tr b (hsk_mtu s) (of_nat (length (udata b))) 0 0 (s\<lparr>mallocs := Suc (mallocs s)\<rparr>)
       = Some (r, s\<lparr>mallocs := Suc (mallocs s)\<rparr>\<lparr>sent := sent (s\<lparr>mallocs := Suc (mallocs s)\<rparr>)
           @ map (nth_fragment b (hsk_mtu s)) [0..<Suc (length (udata b) div unat (hsk_mtu s))]\<rparr>)"
    using fragment_loop_all_sent [OF M cap L ok, of 0 0 0] by (metis mult_zero_left unat_0 order_refl)
  then have "transmit_message tr b s =
     Some (r, s\<lparr>sent := sent s @ map (nth_fragment b (hsk_mtu s))
                     [0..<Suc (length (udata b) div unat (hsk_mtu s))],
              mallocs := Suc (mallocs s)\<rparr>)"
    using nccs mem cap' by (simp add: transmit_message_def gnutls_malloc_def Let_def)
  then show ?thesis using r(1) by blast
qed

lemma send_flight_frame:
  assumes fits: "mtu_fits (hsk_mtu s)"
  shows "list_all (\<lambda>b. length (udata b) < 2 ^ 31) bufs \<Longrightarrow>
    \<exists>ws m. send_flight tr bufs last_type s
       = Some (last_type_after bufs last_type, s\<lparr>sent := sent s @ ws, mallocs := m\<rparr>)"
  using fits
proof (induction bufs arbitrary: last_type s)
  case Nil
  have "send_flight tr [] last_type s
      = Some (last_type_after [] last_type, s\<lparr>sent := sent s @ [], mallocs := mallocs s\<rparr>)"
    by (simp add: last_type_after_def)
  then show ?case by blast
next
  case (Cons cur rest)
  obtain r ws m where tm: "transmit_message tr cur s = Some (r, s\<lparr>sent := sent s @ ws, mallocs := m\<rparr>)"
    using transmit_message_frame [of s cur tr] Cons.prems by auto
  let ?s1 = "s\<lparr>sent := sent s @ ws, mallocs := m\<rparr>"
  have "mtu_fits (hsk_mtu ?s1)" using Cons.prems(2) by simp
  then obtain ws' m' where
    "send_flight tr rest (htype cur) ?s1
       = Some (last_type_after rest (htype cur), ?s1\<lparr>sent := sent ?s1 @ ws', mallocs := m'\<rparr>)"
    using Cons.IH [of ?s1 "htype cur"] Cons.prems(1) by auto
  then have "send_flight tr (cur # rest) last_type s
       = Some (last_type_after (cur # rest) last_type, s\<lparr>sent := sent s @ (ws @ ws'), mallocs := m'\<rparr>)"
    using tm by (simp add: last_type_after_def)
  then show ?case by blast
qed

lemma await_response_eq:
  "await_response tr last_type s =
     (let w = io_check_recv tr (length (recvs s)); sp = last_flight_finished s last_type in
      (if sp then (if fst w = GNUTLS_E_TIMEDOUT then 0
                   else if fst w \<ge> 0 \<and> uint (snd w) = GNUTLS_HANDSHAKE then GNUTLS_E_TIMEDOUT
                   else fst w)
       else fst w,
       s\<lparr>recvs := recvs s @ [(if sp then 1 else 0, retrans_timeout s)]\<rparr>))"
  by (simp add: await_response_def gnutls_io_check_recv_def Let_def)


subsection \<open>Fragments of a message\<close>

lemma concat_chunks:
  "concat (map (\<lambda>k. take M (drop (k * M) xs)) [0..<n]) = take (n * M) xs"
proof (induction n)
  case 0
  then show ?case by simp
next
  case (Suc n)
  have "take (n * M) xs @ take M (drop (n * M) xs) = take (n * M + M) xs"
    by (simp add: take_add)
  then show ?case using Suc by (simp add: add.commute)
qed

lemma nth_fragment_payload:
  assumes L: "length (udata b) < 2 ^ 31" and k: "k * unat mtu \<le> length (udata b)"
  shows "fragment_payload (nth_fragment b mtu k) = take (unat mtu) (drop (k * unat mtu) (udata b))"
proof -
  have u1: "unat (of_nat (k * unat mtu) :: uint) = k * unat mtu"
    using L k by (subst unat_of_nat) simp
  have "min (unat mtu) (length (udata b) - k * unat mtu) < 2 ^ 32" using L by simp
  then have u2: "unat (of_nat (min (unat mtu) (length (udata b) - k * unat mtu)) :: uint)
      = min (unat mtu) (length (udata b) - k * unat mtu)"
    by (simp add: unat_of_nat)
  show ?thesis
    unfolding fragment_payload_def nth_fragment_def fragment_args_def fragment_bytes_def
      gnutls_write_uint24_def gnutls_write_uint16_def u1 u2
    by (simp add: min_def)
qed

subsection \<open>Change-Cipher-Spec\<close>

text \<open>
  Claim C9. A buffered message of handshake type Change-Cipher-Spec is handed to the
  record layer in exactly one write: its content as buffered (no 12-byte header
  before it), under the Change-Cipher-Spec record type and the message's own epoch.
  The result of that write is returned; nothing is allocated and nothing else is
  sent, the session changing in its write log only.
\<close>

theorem ccs_passthrough:
  assumes "htype bufel = GNUTLS_HANDSHAKE_CHANGE_CIPHER_SPEC"
  shows "transmit_message tr bufel s =
     (let a = \<lparr>s_type = GNUTLS_CHANGE_CIPHER_SPEC, s_htype = - 1, s_epoch = epoch bufel,
               s_data = uhead bufel\<rparr>
      in Some (send_int tr (length (sent s)) a, s\<lparr>sent := sent s @ [a]\<rparr>))"
  using assms by (simp add: transmit_message_def gnutls_send_int_def Let_def)

theorem ccs_passthrough_witness:
  "htype example_ccs = GNUTLS_HANDSHAKE_CHANGE_CIPHER_SPEC \<and>
   transmit_message example_transport example_ccs example_session =
     Some (1, example_session\<lparr>sent :=
       [\<lparr>s_type = GNUTLS_CHANGE_CIPHER_SPEC, s_htype = - 1, s_epoch = 0, s_data = [1]\<rparr>]\<rparr>)"
proof -
  have h: "htype example_ccs = GNUTLS_HANDSHAKE_CHANGE_CIPHER_SPEC"
    by (simp add: example_ccs_def GNUTLS_HANDSHAKE_CHANGE_CIPHER_SPEC_def)
  show ?thesis
    using h ccs_passthrough [OF h, of example_transport example_session]
    by (simp add: example_ccs_def example_transport_def example_session_def)
qed

subsection \<open>Fragmentation\<close>

text \<open>
  Claim C6. A message other than Change-Cipher-Spec whose length is exactly \<open>k\<close>
  times the MTU, \<open>k \<ge> 1\<close>, is sent as \<open>k\<close> fragments with \<open>MTU\<close> payload bytes each,
  followed by one fragment with no payload: the loop condition \<^verbatim>\<open>offset <= data_size\<close>
  admits the offset \<open>k * MTU\<close>. (The allocation and every write succeed; the MTU is
  not zero and the sizes are in the range where \<^verbatim>\<open>unsigned int\<close> does not wrap.)
\<close>

theorem exact_multiple_trailing_fragment:
  assumes nccs: "htype b \<noteq> GNUTLS_HANDSHAKE_CHANGE_CIPHER_SPEC"
    and fits: "mtu_fits (hsk_mtu s)" and L: "length (udata b) < 2 ^ 31"
    and mem: "malloc_ok tr (mallocs s)"
    and ok: "\<And>n a. 0 \<le> send_int tr n a"
    and k: "1 \<le> k" and len: "length (udata b) = k * unat (hsk_mtu s)"
  shows "let frags = map (nth_fragment b (hsk_mtu s)) [0..<Suc k]
         in (\<exists>r\<ge>0. transmit_message tr b s
                  = Some (r, s\<lparr>sent := sent s @ frags, mallocs := Suc (mallocs s)\<rparr>))
            \<and> map (\<lambda>a. length (fragment_payload a)) frags = replicate k (unat (hsk_mtu s)) @ [0]"
proof -
  define M where "M = unat (hsk_mtu s)"
  have M0: "0 < M" using fits by (simp add: M_def mtu_fits_def unat_gt_0)
  have n: "length (udata b) div unat (hsk_mtu s) = k" using len M0 by (simp add: M_def)
  have run: "\<exists>r\<ge>0. transmit_message tr b s
       = Some (r, s\<lparr>sent := sent s @ map (nth_fragment b (hsk_mtu s)) [0..<Suc k],
                  mallocs := Suc (mallocs s)\<rparr>)"
    using transmit_message_fragments [OF nccs fits L mem ok] unfolding n .
  have pay: "length (fragment_payload (nth_fragment b (hsk_mtu s) i)) = min M (k * M - i * M)"
    if "i \<le> k" for i
  proof -
    have "i * unat (hsk_mtu s) \<le> length (udata b)" using that len by simp
    then show ?thesis using nth_fragment_payload [OF L, of i "hsk_mtu s"] len by (simp add: M_def)
  qed
  have full: "length (fragment_payload (nth_fragment b (hsk_mtu s) i)) = M" if "i < k" for i
  proof -
    have "Suc i * M \<le> k * M" using that by (intro mult_le_mono1) simp
    then have "M \<le> k * M - i * M" by simp
    then show ?thesis using pay [of i] that by simp
  qed
  have "map (\<lambda>i. length (fragment_payload (nth_fragment b (hsk_mtu s) i))) [0..<k]
      = map (\<lambda>i. M) [0..<k]"
    by (rule map_cong) (simp_all add: full)
  then have firsts: "map (\<lambda>i. length (fragment_payload (nth_fragment b (hsk_mtu s) i))) [0..<k]
      = replicate k M"
    by (simp add: map_replicate_const)
  have lastf: "length (fragment_payload (nth_fragment b (hsk_mtu s) k)) = 0"
    using pay [of k] by simp
  have "map (\<lambda>a. length (fragment_payload a)) (map (nth_fragment b (hsk_mtu s)) [0..<Suc k])
      = replicate k M @ [0]"
    using firsts lastf by (simp add: comp_def)
  then show ?thesis using run unfolding Let_def M_def by blast
qed

theorem exact_multiple_trailing_fragment_witness:
  "htype example_finished \<noteq> GNUTLS_HANDSHAKE_CHANGE_CIPHER_SPEC \<and>
   mtu_fits (hsk_mtu example_session) \<and> length (udata example_finished) < 2 ^ 31 \<and>
   malloc_ok example_transport (mallocs example_session) \<and>
   (\<forall>n a. 0 \<le> send_int example_transport n a) \<and> (1::nat) \<le> 2 \<and>
   length (udata example_finished) = 2 * unat (hsk_mtu example_session) \<and>
   (let frags = map (nth_fragment example_finished (hsk_mtu example_session)) [0..<Suc 2]
    in (\<exists>r\<ge>0. transmit_message example_transport example_finished example_session
            = Some (r, example_session\<lparr>sent := sent example_session @ frags,
                       mallocs := Suc (mallocs example_session)\<rparr>))
       \<and> map (\<lambda>a. length (fragment_payload a)) frags
           = replicate 2 (unat (hsk_mtu example_session)) @ [0])"
proof -
  have h1: "htype example_finished \<noteq> GNUTLS_HANDSHAKE_CHANGE_CIPHER_SPEC"
    by (simp add: example_finished_def GNUTLS_HANDSHAKE_CHANGE_CIPHER_SPEC_def)
  have h2: "mtu_fits (hsk_mtu example_session)"
    by (simp add: example_session_def mtu_fits_def)
  have h3: "length (udata example_finished) < 2 ^ 31" by (simp add: example_finished_def)
  have h4: "malloc_ok example_transport (mallocs example_session)"
    by (simp add: example_transport_def)
  have h5: "\<forall>n a. 0 \<le> send_int example_transport n a" by (simp add: example_transport_def)
  have h6: "(1::nat) \<le> 2" by simp
  have h7: "length (udata example_finished) = 2 * unat (hsk_mtu example_session)"
    by (simp add: example_finished_def example_session_def)
  note c = exact_multiple_trailing_fragment [OF h1 h2 h3 h4 h5 [rule_format] h6 h7]
  show ?thesis using h1 h2 h3 h4 h5 h6 h7 c by blast
qed

text \<open>
  Claim C7. For a message of any length \<open>L\<close> and an MTU \<open>M > 0\<close>, the writes are the
  fragments \<open>0, \<dots>, L div M\<close> in this order; fragment \<open>k\<close> carries the bytes of the
  message from offset \<open>k * M\<close>, \<open>M\<close> of them except for the last fragment, which carries
  the \<open>L mod M\<close> that remain; the payloads concatenated in this order are the message.
  (Same provisos as for C6.)
\<close>

theorem fragments_reassemble:
  assumes nccs: "htype b \<noteq> GNUTLS_HANDSHAKE_CHANGE_CIPHER_SPEC"
    and fits: "mtu_fits (hsk_mtu s)" and L: "length (udata b) < 2 ^ 31"
    and mem: "malloc_ok tr (mallocs s)"
    and ok: "\<And>n a. 0 \<le> send_int tr n a"
  shows "let M = unat (hsk_mtu s); n = length (udata b) div M;
             frags = map (nth_fragment b (hsk_mtu s)) [0..<Suc n]
         in (\<exists>r\<ge>0. transmit_message tr b s
                  = Some (r, s\<lparr>sent := sent s @ frags, mallocs := Suc (mallocs s)\<rparr>))
            \<and> (\<forall>k\<le>n. fragment_payload (frags ! k) = take M (drop (k * M) (udata b)))
            \<and> (\<forall>k<n. length (fragment_payload (frags ! k)) = M)
            \<and> length (fragment_payload (frags ! n)) = length (udata b) mod M
            \<and> concat (map fragment_payload frags) = udata b"
proof -
  define M where "M = unat (hsk_mtu s)"
  define n where "n = length (udata b) div M"
  define frags where "frags = map (nth_fragment b (hsk_mtu s)) [0..<Suc n]"
  have M0: "0 < M" using fits by (simp add: M_def mtu_fits_def unat_gt_0)
  have run: "\<exists>r\<ge>0. transmit_message tr b s
                  = Some (r, s\<lparr>sent := sent s @ frags, mallocs := Suc (mallocs s)\<rparr>)"
    using transmit_message_fragments [OF nccs fits L mem ok] by (simp add: frags_def n_def M_def)
  have nth: "frags ! k = nth_fragment b (hsk_mtu s) k" if "k \<le> n" for k
  proof -
    have "k < length [0..<Suc n]" using that by simp
    then have "frags ! k = nth_fragment b (hsk_mtu s) ([0..<Suc n] ! k)"
      unfolding frags_def by (rule nth_map)
    also have "[0..<Suc n] ! k = k" using that by (metis add_0 less_Suc_eq_le nth_upt)
    finally show ?thesis .
  qed
  have pay: "fragment_payload (frags ! k) = take M (drop (k * M) (udata b))" if "k \<le> n" for k
  proof -
    have "k * M \<le> length (udata b)" using that div_mult_le n_def by simp
    then show ?thesis using nth [OF that] nth_fragment_payload [OF L, of k "hsk_mtu s"] by (simp add: M_def)
  qed
  have full: "length (fragment_payload (frags ! k)) = M" if "k < n" for k
  proof -
    have "Suc k * M \<le> length (udata b)" using that div_mult_le [of "Suc k"] n_def by simp
    then show ?thesis using pay [of k] that by simp
  qed
  have "n * M + length (udata b) mod M = length (udata b)" by (simp add: n_def)
  then have "length (udata b) - n * M = length (udata b) mod M" by linarith
  moreover have "length (udata b) mod M < M" using M0 by simp
  ultimately have rest: "length (fragment_payload (frags ! n)) = length (udata b) mod M"
    using pay [of n] by simp
  have "map fragment_payload frags = map (\<lambda>k. take M (drop (k * M) (udata b))) [0..<Suc n]"
  proof (rule nth_equalityI)
    show "length (map fragment_payload frags) = length (map (\<lambda>k. take M (drop (k * M) (udata b))) [0..<Suc n])"
      by (simp add: frags_def)
  next
    fix i assume "i < length (map fragment_payload frags)"
    then have i: "i \<le> n" by (simp add: frags_def)
    then have "map fragment_payload frags ! i = fragment_payload (frags ! i)" by (simp add: frags_def del: upt_Suc)
    also have "\<dots> = take M (drop (i * M) (udata b))" using pay [OF i] .
    also have "\<dots> = map (\<lambda>k. take M (drop (k * M) (udata b))) [0..<Suc n] ! i"
      using i by (simp del: upt_Suc)
    finally show "map fragment_payload frags ! i = map (\<lambda>k. take M (drop (k * M) (udata b))) [0..<Suc n] ! i" .
  qed
  then have "concat (map fragment_payload frags) = take (Suc n * M) (udata b)"
    using concat_chunks [of M "udata b" "Suc n"] by simp
  moreover have "length (udata b) < Suc n * M"
    using div_mult_gt [OF M0, of "length (udata b)" "Suc n"] by (simp add: n_def)
  ultimately have cat: "concat (map fragment_payload frags) = udata b" by simp
  show ?thesis
    using run pay full rest cat unfolding Let_def M_def [symmetric] n_def [symmetric] frags_def [symmetric]
    by blast
qed

theorem fragments_reassemble_witness:
  "htype example_hello \<noteq> GNUTLS_HANDSHAKE_CHANGE_CIPHER_SPEC \<and>
   mtu_fits (hsk_mtu example_session) \<and> length (udata example_hello) < 2 ^ 31 \<and>
   malloc_ok example_transport (mallocs example_session) \<and>
   (\<forall>n a. 0 \<le> send_int example_transport n a) \<and>
   (let M = unat (hsk_mtu example_session); n = length (udata example_hello) div M;
        frags = map (nth_fragment example_hello (hsk_mtu example_session)) [0..<Suc n]
    in (\<exists>r\<ge>0. transmit_message example_transport example_hello example_session
            = Some (r, example_session\<lparr>sent := sent example_session @ frags,
                       mallocs := Suc (mallocs example_session)\<rparr>))
       \<and> (\<forall>k\<le>n. fragment_payload (frags ! k) = take M (drop (k * M) (udata example_hello)))
       \<and> (\<forall>k<n. length (fragment_payload (frags ! k)) = M)
       \<and> length (fragment_payload (frags ! n)) = length (udata example_hello) mod M
       \<and> concat (map fragment_payload frags) = udata example_hello)"
proof -
  have h1: "htype example_hello \<noteq> GNUTLS_HANDSHAKE_CHANGE_CIPHER_SPEC"
    by (simp add: example_hello_def GNUTLS_HANDSHAKE_CHANGE_CIPHER_SPEC_def)
  have h2: "mtu_fits (hsk_mtu example_session)"
    by (simp add: example_session_def mtu_fits_def)
  have h3: "length (udata example_hello) < 2 ^ 31" by (simp add: example_hello_def)
  have h4: "malloc_ok example_transport (mallocs example_session)"
    by (simp add: example_transport_def)
  have h5: "\<forall>n a. 0 \<le> send_int example_transport n a" by (simp add: example_transport_def)
  note c = fragments_reassemble [OF h1 h2 h3 h4 h5 [rule_format]]
  show ?thesis using h1 h2 h3 h4 h5 c by blast
qed

subsection \<open>Rounds of the retransmission loop\<close>





subsection \<open>The sample flights, evaluated\<close>

lemmas example_defs =
  exhausted_session_def short_deadline_session_def zero_deadline_session_def
  tight_deadline_session_def empty_session_def hello_fragment_def
  example_transport_def responsive_transport_def failing_flush_transport_def
  failing_send_transport_def example_session_def ccs_session_def hello_session_def
  server_session_def example_ccs_def example_hello_def example_finished_def ccs_args_def
  server_finished_session_def failing_malloc_transport_def unknown_epoch_session_def
  handshake_byte_transport_def tight_finished_session_def

lemmas constant_defs =
  GNUTLS_HANDSHAKE_FINISHED_def GNUTLS_HANDSHAKE_CHANGE_CIPHER_SPEC_def
  GNUTLS_CHANGE_CIPHER_SPEC_def GNUTLS_HANDSHAKE_def GNUTLS_E_MEMORY_ERROR_def
  GNUTLS_E_INVALID_REQUEST_def GNUTLS_E_INTERNAL_ERROR_def GNUTLS_E_TIMEDOUT_def
  DTLS_HANDSHAKE_HEADER_SIZE_def

lemmas call_defs =
  transmit_message_def gnutls_send_int_def gnutls_io_write_flush_def gnutls_malloc_def
  await_response_def last_flight_finished_def gnutls_io_check_recv_def
  cleanup_def mbuffer_clear_def drop_usage_count_def gnutls_epoch_get_def
  gnutls_dtls_transmit_def Let_def


subsection \<open>The deadline\<close>




subsection \<open>An answer to the first wait\<close>




subsection \<open>The wait after Finished\<close>

text \<open>
  A server's flight that ends with Finished, under a total timeout equal to the
  interval: whatever the wait returns, the first round is the last and the timeout
  error is returned after the release.
\<close>

lemma tight_finished_round:
  assumes m: "malloc_ok tr 0" and ok: "\<And>n a. 0 \<le> send_int tr n a"
    and fl: "0 \<le> io_write_flush tr 0"
  shows "gnutls_dtls_transmit tr tight_finished_session
     = Some (GNUTLS_E_TIMEDOUT,
             tight_finished_session\<lparr>sent := map (nth_fragment example_finished 2) [0, 1, 2],
                mallocs := 1, flushes := 1, recvs := [(1, 1000)], handshake_send_buffer := [],
                epochs := [0 \<mapsto> \<lparr>usage_cnt = 2\<rparr>, 1 \<mapsto> \<lparr>usage_cnt = 0\<rparr>]\<rparr>)"
proof -
  have h1: "htype example_finished \<noteq> GNUTLS_HANDSHAKE_CHANGE_CIPHER_SPEC"
    by (simp add: example_defs constant_defs)
  have h2: "mtu_fits (hsk_mtu tight_finished_session)"
    by (simp add: example_defs mtu_fits_def)
  have h3: "length (udata example_finished) < 2 ^ 31" by (simp add: example_defs)
  have h4: "malloc_ok tr (mallocs tight_finished_session)"
    using m by (simp add: example_defs)
  have upt: "[0..<Suc (length (udata example_finished) div unat (hsk_mtu tight_finished_session))]
      = [0, 1, 2]"
    by (simp add: example_defs upt_rec)
  obtain r where msg: "transmit_message tr example_finished tight_finished_session
      = Some (r, tight_finished_session\<lparr>sent := map (nth_fragment example_finished 2) [0, 1, 2],
                mallocs := 1\<rparr>)"
    using transmit_message_fragments [OF h1 h2 h3 h4 ok] unfolding upt
    by (auto simp: example_defs)
  have buf: "handshake_send_buffer tight_finished_session = [example_finished]"
    by (simp add: example_defs)
  have loop: "transmit_loop tr 0 0 tight_finished_session
      = Some (Goto_cleanup, GNUTLS_E_TIMEDOUT, 1000,
          tight_finished_session\<lparr>sent := map (nth_fragment example_finished 2) [0, 1, 2],
                mallocs := 1, flushes := 1, recvs := [(1, 1000)]\<rparr>)"
    apply (subst transmit_loop.simps)
    apply (simp add: buf msg)
    using fl
    apply (simp add: example_defs constant_defs call_defs)
    done
  show ?thesis
    unfolding gnutls_dtls_transmit_def loop
    by (simp add: example_defs constant_defs call_defs fun_upd_twist)
qed

text \<open>
  Claim C5, as the code has it. In a round whose flush succeeds, the wait asks for
  one byte exactly when the last message sent is Finished and the side is a server
  on a fresh handshake or a client on a resumed one; otherwise it asks for none.
  Where the time summed with this wait is still below the total timeout, a wait of
  that kind that times out ends the loop with 0 (success, no retransmission), and a
  read byte of the handshake record type starts another round. Where the time
  summed has reached the total timeout, the round ends with the timeout error
  whatever the wait returned.
\<close>

theorem finished_wait:
  assumes fits: "flight_fits s"
    and flush_ok: "0 \<le> io_write_flush tr (flushes s)"
  shows "\<exists>ws m.
     let lt = last_type_after (handshake_send_buffer s) last_type;
         special = (lt = GNUTLS_HANDSHAKE_FINISHED \<and>
                     ((entity s = GNUTLS_SERVER \<and> resumed s = RESUME_FALSE) \<or>
                      (entity s = GNUTLS_CLIENT \<and> resumed s = RESUME_TRUE)));
         w = io_check_recv tr (length (recvs s));
         tot' = tot + retrans_timeout s;
         s1 = s\<lparr>sent := sent s @ ws, mallocs := m, flushes := Suc (flushes s)\<rparr>;
         s' = s1\<lparr>recvs := recvs s @ [(if special then 1 else 0, retrans_timeout s)]\<rparr>
     in send_flight tr (handshake_send_buffer s) last_type s
            = Some (lt, s\<lparr>sent := sent s @ ws, mallocs := m\<rparr>)
        \<and> snd (await_response tr lt s1) = s'
        \<and> (dtls_total_timeout s \<le> tot' \<longrightarrow>
              transmit_loop tr tot last_type s = Some (Goto_cleanup, GNUTLS_E_TIMEDOUT, tot', s'))
        \<and> (\<not> dtls_total_timeout s \<le> tot' \<longrightarrow>
              (special \<and> fst w = GNUTLS_E_TIMEDOUT \<longrightarrow>
                 transmit_loop tr tot last_type s = Some (Loop_end, 0, tot', s')
                 \<and> (tot = 0 \<and> last_type = 0 \<longrightarrow>
                      gnutls_dtls_transmit tr s = Some (cleanup 0 s')))
            \<and> (special \<and> 0 \<le> fst w \<and> uint (snd w) = GNUTLS_HANDSHAKE \<longrightarrow>
                 transmit_loop tr tot last_type s = transmit_loop tr tot' lt s')
            \<and> (\<not> special \<longrightarrow>
                 transmit_loop tr tot last_type s =
                   (if fst w = GNUTLS_E_TIMEDOUT then transmit_loop tr tot' lt s'
                    else Some (Loop_end, fst w, tot', s'))))"
proof -
  let ?lt = "last_type_after (handshake_send_buffer s) last_type"
  let ?w = "io_check_recv tr (length (recvs s))"
  let ?tot = "tot + retrans_timeout s"
  obtain ws m where sf: "send_flight tr (handshake_send_buffer s) last_type s
       = Some (?lt, s\<lparr>sent := sent s @ ws, mallocs := m\<rparr>)"
    using send_flight_frame [of s "handshake_send_buffer s" tr last_type] fits
    by (auto simp: flight_fits_def)
  define s1 where "s1 = s\<lparr>sent := sent s @ ws, mallocs := m, flushes := Suc (flushes s)\<rparr>"
  define special where "special \<longleftrightarrow> ?lt = GNUTLS_HANDSHAKE_FINISHED \<and>
                     ((entity s = GNUTLS_SERVER \<and> resumed s = RESUME_FALSE) \<or>
                      (entity s = GNUTLS_CLIENT \<and> resumed s = RESUME_TRUE))"
  define s2 where "s2 = s1\<lparr>recvs := recvs s @ [(if special then 1 else 0, retrans_timeout s)]\<rparr>"
  define v where "v = (if special
              then (if fst ?w = GNUTLS_E_TIMEDOUT then 0
                    else if 0 \<le> fst ?w \<and> uint (snd ?w) = GNUTLS_HANDSHAKE then GNUTLS_E_TIMEDOUT
                    else fst ?w)
              else fst ?w)"
  have sp: "last_flight_finished s1 ?lt = special"
    by (simp add: s1_def last_flight_finished_def special_def)
  have r1: "recvs s1 = recvs s" "retrans_timeout s1 = retrans_timeout s"
    by (simp_all add: s1_def)
  have aw: "await_response tr ?lt s1 = (v, s2)"
    by (simp add: await_response_eq sp Let_def r1 v_def s2_def)
  have r2: "retrans_timeout s2 = retrans_timeout s" "dtls_total_timeout s2 = dtls_total_timeout s"
    by (simp_all add: s2_def s1_def)
  have loop: "transmit_loop tr tot last_type s =
      (if dtls_total_timeout s \<le> ?tot then Some (Goto_cleanup, GNUTLS_E_TIMEDOUT, ?tot, s2)
       else if v = GNUTLS_E_TIMEDOUT then transmit_loop tr ?tot ?lt s2
       else Some (Loop_end, v, ?tot, s2))"
    apply (subst transmit_loop.simps)
    using flush_ok
    apply (simp add: sf gnutls_io_write_flush_def Let_def s1_def [symmetric] aw r2)
    done
  have t0: "GNUTLS_E_TIMEDOUT \<noteq> 0" "\<not> 0 \<le> GNUTLS_E_TIMEDOUT" by (simp_all add: GNUTLS_E_TIMEDOUT_def)
  have c0: "transmit_loop tr tot last_type s = Some (Goto_cleanup, GNUTLS_E_TIMEDOUT, ?tot, s2)"
    if "dtls_total_timeout s \<le> ?tot"
    using that unfolding loop by simp
  have c1: "transmit_loop tr tot last_type s = Some (Loop_end, 0, ?tot, s2)"
    if "\<not> dtls_total_timeout s \<le> ?tot" "special" "fst ?w = GNUTLS_E_TIMEDOUT"
    using that t0 unfolding loop v_def by simp
  have c1': "gnutls_dtls_transmit tr s = Some (cleanup 0 s2)"
    if "\<not> dtls_total_timeout s \<le> ?tot" "special" "fst ?w = GNUTLS_E_TIMEDOUT" "tot = 0" "last_type = 0"
    using c1 [OF that(1,2,3)] that(4,5) by (simp add: gnutls_dtls_transmit_def)
  have c2: "transmit_loop tr tot last_type s = transmit_loop tr ?tot ?lt s2"
    if "\<not> dtls_total_timeout s \<le> ?tot" "special" "0 \<le> fst ?w" "uint (snd ?w) = GNUTLS_HANDSHAKE"
    using that t0 unfolding loop v_def by auto
  have c3: "transmit_loop tr tot last_type s =
                (if fst ?w = GNUTLS_E_TIMEDOUT then transmit_loop tr ?tot ?lt s2
                 else Some (Loop_end, fst ?w, ?tot, s2))"
    if "\<not> dtls_total_timeout s \<le> ?tot" "\<not> special"
    using that unfolding loop v_def by simp
  have aw2: "snd (await_response tr ?lt s1) = s2" using aw by simp
  show ?thesis
    unfolding Let_def special_def [symmetric]
    apply (rule exI [of _ ws], rule exI [of _ m])
    unfolding s1_def [symmetric] s2_def [symmetric]
    using sf aw2 c0 c1 c1' c2 c3 by blast
qed

theorem finished_wait_witness:
  "flight_fits server_session \<and>
   0 \<le> io_write_flush example_transport (flushes server_session) \<and>
   0 \<le> io_write_flush handshake_byte_transport (flushes server_session) \<and>
   last_type_after (handshake_send_buffer server_session) 0 = GNUTLS_HANDSHAKE_FINISHED \<and>
   entity server_session = GNUTLS_SERVER \<and> resumed server_session = RESUME_FALSE \<and>
   \<not> dtls_total_timeout server_session \<le> 0 + retrans_timeout server_session \<and>
   fst (io_check_recv example_transport (length (recvs server_session))) = GNUTLS_E_TIMEDOUT \<and>
   0 \<le> fst (io_check_recv handshake_byte_transport (length (recvs server_session))) \<and>
   uint (snd (io_check_recv handshake_byte_transport (length (recvs server_session))))
     = GNUTLS_HANDSHAKE \<and>
   (\<exists>ws m. gnutls_dtls_transmit example_transport server_session
       = Some (cleanup 0 (server_session\<lparr>sent := sent server_session @ ws, mallocs := m,
             flushes := Suc (flushes server_session),
             recvs := recvs server_session @ [(1, retrans_timeout server_session)]\<rparr>))) \<and>
   (\<exists>ws m. transmit_loop handshake_byte_transport 0 0 server_session
       = transmit_loop handshake_byte_transport (0 + retrans_timeout server_session)
           GNUTLS_HANDSHAKE_FINISHED
           (server_session\<lparr>sent := sent server_session @ ws, mallocs := m,
             flushes := Suc (flushes server_session),
             recvs := recvs server_session @ [(1, retrans_timeout server_session)]\<rparr>))"
proof -
  have h1: "flight_fits server_session"
    by (simp add: flight_fits_def mtu_fits_def example_defs)
  have h2: "0 \<le> io_write_flush example_transport (flushes server_session)"
    by (simp add: example_defs)
  have h2': "0 \<le> io_write_flush handshake_byte_transport (flushes server_session)"
    by (simp add: example_defs)
  have h3: "\<not> dtls_total_timeout server_session \<le> 0 + retrans_timeout server_session"
    by (simp add: example_defs)
  have h4: "last_type_after (handshake_send_buffer server_session) 0 = GNUTLS_HANDSHAKE_FINISHED"
    by (simp add: last_type_after_def example_defs constant_defs)
  have h5: "entity server_session = GNUTLS_SERVER" "resumed server_session = RESUME_FALSE"
    by (simp_all add: example_defs)
  have h6: "fst (io_check_recv example_transport (length (recvs server_session))) = GNUTLS_E_TIMEDOUT"
    by (simp add: example_defs)
  have h7: "0 \<le> fst (io_check_recv handshake_byte_transport (length (recvs server_session)))"
    "uint (snd (io_check_recv handshake_byte_transport (length (recvs server_session))))
     = GNUTLS_HANDSHAKE"
    by (simp_all add: example_defs constant_defs)
  from finished_wait [OF h1 h2, of 0 0]
  have a: "\<exists>ws m. gnutls_dtls_transmit example_transport server_session
       = Some (cleanup 0 (server_session\<lparr>sent := sent server_session @ ws, mallocs := m,
             flushes := Suc (flushes server_session),
             recvs := recvs server_session @ [(1, retrans_timeout server_session)]\<rparr>))"
    unfolding Let_def h4 h5 h6 using h3 by auto
  from finished_wait [OF h1 h2', of 0 0]
  have b: "\<exists>ws m. transmit_loop handshake_byte_transport 0 0 server_session
       = transmit_loop handshake_byte_transport (0 + retrans_timeout server_session)
           GNUTLS_HANDSHAKE_FINISHED
           (server_session\<lparr>sent := sent server_session @ ws, mallocs := m,
             flushes := Suc (flushes server_session),
             recvs := recvs server_session @ [(1, retrans_timeout server_session)]\<rparr>)"
    unfolding Let_def h4 h5 using h3 h7 by auto
  show ?thesis using h1 h2 h2' h3 h4 h5 h6 h7 a b by blast
qed

text \<open>
  The claim as stated, without the proviso on the deadline, fails for a server whose
  flight ends with Finished when the total timeout equals the interval: a wait that
  times out is reported as a timeout, not as success, and a byte of the handshake
  record type is followed by no second round.
\<close>

theorem finished_wait_counterexample:
  "last_flight_finished tight_finished_session
     (last_type_after (handshake_send_buffer tight_finished_session) 0)
   \<and> fst (io_check_recv example_transport 0) = GNUTLS_E_TIMEDOUT
   \<and> gnutls_dtls_transmit example_transport tight_finished_session
     = Some (GNUTLS_E_TIMEDOUT,
             tight_finished_session\<lparr>sent := map (nth_fragment example_finished 2) [0, 1, 2],
                mallocs := 1, flushes := 1, recvs := [(1, 1000)], handshake_send_buffer := [],
                epochs := [0 \<mapsto> \<lparr>usage_cnt = 2\<rparr>, 1 \<mapsto> \<lparr>usage_cnt = 0\<rparr>]\<rparr>)
   \<and> GNUTLS_E_TIMEDOUT \<noteq> 0
   \<and> 0 \<le> fst (io_check_recv handshake_byte_transport 0)
   \<and> uint (snd (io_check_recv handshake_byte_transport 0)) = GNUTLS_HANDSHAKE
   \<and> gnutls_dtls_transmit handshake_byte_transport tight_finished_session
     = Some (GNUTLS_E_TIMEDOUT,
             tight_finished_session\<lparr>sent := map (nth_fragment example_finished 2) [0, 1, 2],
                mallocs := 1, flushes := 1, recvs := [(1, 1000)], handshake_send_buffer := [],
                epochs := [0 \<mapsto> \<lparr>usage_cnt = 2\<rparr>, 1 \<mapsto> \<lparr>usage_cnt = 0\<rparr>]\<rparr>)"
proof -
  have sp: "last_flight_finished tight_finished_session
     (last_type_after (handshake_send_buffer tight_finished_session) 0)"
    by (simp add: last_flight_finished_def last_type_after_def example_defs constant_defs)
  have a: "gnutls_dtls_transmit example_transport tight_finished_session
     = Some (GNUTLS_E_TIMEDOUT,
             tight_finished_session\<lparr>sent := map (nth_fragment example_finished 2) [0, 1, 2],
                mallocs := 1, flushes := 1, recvs := [(1, 1000)], handshake_send_buffer := [],
                epochs := [0 \<mapsto> \<lparr>usage_cnt = 2\<rparr>, 1 \<mapsto> \<lparr>usage_cnt = 0\<rparr>]\<rparr>)"
    by (rule tight_finished_round) (simp_all add: example_defs)
  have b: "gnutls_dtls_transmit handshake_byte_transport tight_finished_session
     = Some (GNUTLS_E_TIMEDOUT,
             tight_finished_session\<lparr>sent := map (nth_fragment example_finished 2) [0, 1, 2],
                mallocs := 1, flushes := 1, recvs := [(1, 1000)], handshake_send_buffer := [],
                epochs := [0 \<mapsto> \<lparr>usage_cnt = 2\<rparr>, 1 \<mapsto> \<lparr>usage_cnt = 0\<rparr>]\<rparr>)"
    by (rule tight_finished_round) (simp_all add: example_defs)
  have c: "fst (io_check_recv example_transport 0) = GNUTLS_E_TIMEDOUT"
    "0 \<le> fst (io_check_recv handshake_byte_transport 0)"
    "uint (snd (io_check_recv handshake_byte_transport 0)) = GNUTLS_HANDSHAKE"
    "GNUTLS_E_TIMEDOUT \<noteq> 0"
    by (simp_all add: example_defs constant_defs)
  show ?thesis using sp a b c by blast
qed

subsection \<open>An empty flight\<close>

text \<open>
  Claim C10. With an empty send buffer every round sends nothing, flushes, and
  waits with no byte asked for, whatever the role: \<open>last_type\<close> stays 0, which is not
  Finished. If the flush succeeds, the interval is below the total timeout and the
  wait returns a non-negative result, the function returns 0 having sent nothing.
\<close>

theorem empty_flight:
  assumes empty: "handshake_send_buffer s = []"
  shows "transmit_loop tr tot 0 s =
     (let fl = io_write_flush tr (flushes s);
          w = fst (io_check_recv tr (length (recvs s)));
          tot' = tot + retrans_timeout s;
          s1 = s\<lparr>flushes := Suc (flushes s)\<rparr>;
          s2 = s\<lparr>flushes := Suc (flushes s), recvs := recvs s @ [(0, retrans_timeout s)]\<rparr>
      in if fl < 0 then Some (Return_stmt, fl, tot, s1)
         else if dtls_total_timeout s \<le> tot' then Some (Goto_cleanup, GNUTLS_E_TIMEDOUT, tot', s2)
         else if w = GNUTLS_E_TIMEDOUT then transmit_loop tr tot' 0 s2
         else Some (Loop_end, w, tot', s2))
   \<and> (0 \<le> io_write_flush tr (flushes s) \<and> retrans_timeout s < dtls_total_timeout s
        \<and> 0 \<le> fst (io_check_recv tr (length (recvs s))) \<longrightarrow>
      gnutls_dtls_transmit tr s
        = Some (0, s\<lparr>flushes := Suc (flushes s), recvs := recvs s @ [(0, retrans_timeout s)]\<rparr>))"
proof -
  have f0: "GNUTLS_HANDSHAKE_FINISHED \<noteq> 0" by (simp add: GNUTLS_HANDSHAKE_FINISHED_def)
  have nsp: "\<not> last_flight_finished s' 0" for s'
    using f0 by (simp add: last_flight_finished_def)
  have loop: "transmit_loop tr tot 0 s =
     (let fl = io_write_flush tr (flushes s);
          w = fst (io_check_recv tr (length (recvs s)));
          tot' = tot + retrans_timeout s;
          s1 = s\<lparr>flushes := Suc (flushes s)\<rparr>;
          s2 = s\<lparr>flushes := Suc (flushes s), recvs := recvs s @ [(0, retrans_timeout s)]\<rparr>
      in if fl < 0 then Some (Return_stmt, fl, tot, s1)
         else if dtls_total_timeout s \<le> tot' then Some (Goto_cleanup, GNUTLS_E_TIMEDOUT, tot', s2)
         else if w = GNUTLS_E_TIMEDOUT then transmit_loop tr tot' 0 s2
         else Some (Loop_end, w, tot', s2))" for tot
    apply (subst transmit_loop.simps)
    apply (simp add: empty gnutls_io_write_flush_def await_response_eq nsp Let_def)
    done
  have "gnutls_dtls_transmit tr s
        = Some (0, s\<lparr>flushes := Suc (flushes s), recvs := recvs s @ [(0, retrans_timeout s)]\<rparr>)"
    if h: "0 \<le> io_write_flush tr (flushes s)" "retrans_timeout s < dtls_total_timeout s"
       "0 \<le> fst (io_check_recv tr (length (recvs s)))"
  proof -
    have nt: "fst (io_check_recv tr (length (recvs s))) \<noteq> GNUTLS_E_TIMEDOUT"
      using h(3) by (auto simp: GNUTLS_E_TIMEDOUT_def)
    have nd: "\<not> dtls_total_timeout s \<le> retrans_timeout s" using h(2) by simp
    have "transmit_loop tr 0 0 s = Some (Loop_end, fst (io_check_recv tr (length (recvs s))),
        retrans_timeout s, s\<lparr>flushes := Suc (flushes s), recvs := recvs s @ [(0, retrans_timeout s)]\<rparr>)"
      unfolding loop [of 0] Let_def using h(1) nd nt by simp
    then show ?thesis
      using h(3) empty
      by (simp add: gnutls_dtls_transmit_def cleanup_def drop_usage_count_def mbuffer_clear_def)
  qed
  then show ?thesis using loop [of tot] by blast
qed

theorem empty_flight_witness:
  "handshake_send_buffer empty_session = [] \<and>
   0 \<le> io_write_flush responsive_transport (flushes empty_session) \<and>
   retrans_timeout empty_session < dtls_total_timeout empty_session \<and>
   0 \<le> fst (io_check_recv responsive_transport (length (recvs empty_session))) \<and>
   entity (empty_session\<lparr>entity := GNUTLS_SERVER\<rparr>) = GNUTLS_SERVER \<and>
   resumed (empty_session\<lparr>entity := GNUTLS_SERVER\<rparr>) = RESUME_FALSE \<and>
   gnutls_dtls_transmit responsive_transport empty_session
     = Some (0, empty_session\<lparr>flushes := 1, recvs := [(0, 1000)]\<rparr>) \<and>
   gnutls_dtls_transmit responsive_transport (empty_session\<lparr>entity := GNUTLS_SERVER\<rparr>)
     = Some (0, empty_session\<lparr>entity := GNUTLS_SERVER, flushes := 1, recvs := [(0, 1000)]\<rparr>)"
proof -
  have h1: "handshake_send_buffer empty_session = []" by (simp add: example_defs)
  have h1': "handshake_send_buffer (empty_session\<lparr>entity := GNUTLS_SERVER\<rparr>) = []"
    by (simp add: example_defs)
  have h2: "0 \<le> io_write_flush responsive_transport (flushes empty_session)"
    by (simp add: example_defs)
  have h3: "retrans_timeout empty_session < dtls_total_timeout empty_session"
    by (simp add: example_defs)
  have h4: "0 \<le> fst (io_check_recv responsive_transport (length (recvs empty_session)))"
    by (simp add: example_defs)
  have v: "flushes empty_session = 0" "recvs empty_session = []" "retrans_timeout empty_session = 1000"
    by (simp_all add: example_defs)
  have a: "gnutls_dtls_transmit responsive_transport empty_session
     = Some (0, empty_session\<lparr>flushes := 1, recvs := [(0, 1000)]\<rparr>)"
    using empty_flight [OF h1, of responsive_transport 0] h2 h3 h4 by (simp add: v)
  have b: "gnutls_dtls_transmit responsive_transport (empty_session\<lparr>entity := GNUTLS_SERVER\<rparr>)
     = Some (0, empty_session\<lparr>entity := GNUTLS_SERVER, flushes := 1, recvs := [(0, 1000)]\<rparr>)"
    using empty_flight [OF h1', of responsive_transport 0] h2 h3 h4 by (simp add: v)
  have h5: "resumed empty_session = RESUME_FALSE" by (simp add: example_defs)
  show ?thesis using h1 h2 h3 h4 h5 a b by simp
qed

subsection \<open>Release of the flight\<close>

text \<open>
  Claim C1. A flush that fails makes the function return at once: the code at the
  label \<^verbatim>\<open>cleanup\<close> is not run, the send buffer still holds the flight and the usage
  count of its epoch stands as before. Run on that session, the cleanup would have
  emptied the buffer and lowered the count.
\<close>

theorem flush_error_skips_release:
  "gnutls_dtls_transmit failing_flush_transport ccs_session
     = Some (- 53, ccs_session\<lparr>sent := [ccs_args], flushes := 1\<rparr>)
   \<and> handshake_send_buffer (ccs_session\<lparr>sent := [ccs_args], flushes := 1\<rparr>) = [example_ccs]
   \<and> epochs (ccs_session\<lparr>sent := [ccs_args], flushes := 1\<rparr>) (epoch example_ccs)
       = Some \<lparr>usage_cnt = 2\<rparr>
   \<and> cleanup (- 53) (ccs_session\<lparr>sent := [ccs_args], flushes := 1\<rparr>)
       = (- 53, ccs_session\<lparr>sent := [ccs_args], flushes := 1, handshake_send_buffer := [],
                  epochs := [0 \<mapsto> \<lparr>usage_cnt = 1\<rparr>, 1 \<mapsto> \<lparr>usage_cnt = 1\<rparr>]\<rparr>)"
proof -
  have loop: "transmit_loop failing_flush_transport 0 0 ccs_session
      = Some (Return_stmt, - 53, 0, ccs_session\<lparr>sent := [ccs_args], flushes := 1\<rparr>)"
    by (subst transmit_loop.simps) (simp add: example_defs constant_defs call_defs)
  have "epochs (ccs_session\<lparr>sent := [ccs_args], flushes := 1\<rparr>) (epoch example_ccs)
       = Some \<lparr>usage_cnt = 2\<rparr>"
    by (simp add: example_defs)
  moreover have "cleanup (- 53) (ccs_session\<lparr>sent := [ccs_args], flushes := 1\<rparr>)
       = (- 53, ccs_session\<lparr>sent := [ccs_args], flushes := 1, handshake_send_buffer := [],
                  epochs := [0 \<mapsto> \<lparr>usage_cnt = 1\<rparr>, 1 \<mapsto> \<lparr>usage_cnt = 1\<rparr>]\<rparr>)"
    by (simp add: example_defs constant_defs call_defs fun_upd_twist)
  ultimately show ?thesis using loop by (simp add: gnutls_dtls_transmit_def ccs_session_def)
qed

text \<open>
  When every epoch of the flight is in the table with a usage count at least the
  number of messages that name it, \<^verbatim>\<open>drop_usage_count\<close> returns 0 and lowers each
  count by that number.
\<close>

lemma drop_usage_count_from_conserves:
  "(\<And>e. e \<in> epoch ` set bufs \<Longrightarrow>
       \<exists>p. epochs s e = Some p \<and> int (count_list (map epoch bufs) e) \<le> usage_cnt p) \<Longrightarrow>
   drop_usage_count_from bufs s =
     (0, s\<lparr>epochs := (\<lambda>e. map_option
            (\<lambda>p. p\<lparr>usage_cnt := usage_cnt p - int (count_list (map epoch bufs) e)\<rparr>)
            (epochs s e))\<rparr>)"
proof (induction bufs arbitrary: s)
  case Nil
  have "(\<lambda>e. map_option (\<lambda>p. p\<lparr>usage_cnt := usage_cnt p - int (count_list (map epoch []) e)\<rparr>)
            (epochs s e)) = epochs s"
    by (rule ext) (simp add: option.map_ident)
  then show ?case by simp
next
  case (Cons cur rest)
  obtain p where p: "epochs s (epoch cur) = Some p"
      "int (count_list (map epoch (cur # rest)) (epoch cur)) \<le> usage_cnt p"
    using Cons.prems [of "epoch cur"] by auto
  then have pos: "\<not> usage_cnt p - 1 < 0" by simp
  define s' where "s' = s\<lparr>epochs := (epochs s)(epoch cur \<mapsto> p\<lparr>usage_cnt := usage_cnt p - 1\<rparr>)\<rparr>"
  have step: "drop_usage_count_from (cur # rest) s = drop_usage_count_from rest s'"
    using p(1) pos by (simp add: gnutls_epoch_get_def s'_def Let_def)
  have pre: "\<exists>q. epochs s' e = Some q \<and> int (count_list (map epoch rest) e) \<le> usage_cnt q"
    if "e \<in> epoch ` set rest" for e
  proof (cases "e = epoch cur")
    case True
    then show ?thesis using p by (simp add: s'_def)
  next
    case False
    then show ?thesis using Cons.prems [of e] that by (auto simp: s'_def)
  qed
  have ih: "drop_usage_count_from rest s' =
     (0, s'\<lparr>epochs := (\<lambda>e. map_option
            (\<lambda>q. q\<lparr>usage_cnt := usage_cnt q - int (count_list (map epoch rest) e)\<rparr>)
            (epochs s' e))\<rparr>)"
    by (rule Cons.IH) (rule pre)
  have eq: "(\<lambda>e. map_option
            (\<lambda>q. q\<lparr>usage_cnt := usage_cnt q - int (count_list (map epoch rest) e)\<rparr>)
            (epochs s' e))
      = (\<lambda>e. map_option
            (\<lambda>q. q\<lparr>usage_cnt := usage_cnt q - int (count_list (map epoch (cur # rest)) e)\<rparr>)
            (epochs s e))"
    by (rule ext) (simp add: s'_def p(1) algebra_simps)
  have "s'\<lparr>epochs := (\<lambda>e. map_option
            (\<lambda>q. q\<lparr>usage_cnt := usage_cnt q - int (count_list (map epoch (cur # rest)) e)\<rparr>)
            (epochs s e))\<rparr>
      = s\<lparr>epochs := (\<lambda>e. map_option
            (\<lambda>q. q\<lparr>usage_cnt := usage_cnt q - int (count_list (map epoch (cur # rest)) e)\<rparr>)
            (epochs s e))\<rparr>"
    by (simp add: s'_def)
  then show ?case unfolding step ih eq by simp
qed

text \<open>
  Claim C4. A flight whose epoch has no usage left: \<^verbatim>\<open>drop_usage_count\<close> stores the
  count \<open>-1\<close> and returns the internal error, and \<^verbatim>\<open>_gnutls_dtls_transmit\<close>, which
  does not look at that result, returns 0. Likewise for a flight whose epoch is not
  in the table: the error of the lookup is returned by \<^verbatim>\<open>drop_usage_count\<close> and goes
  no further.
\<close>

theorem negative_count_not_reported:
  "drop_usage_count exhausted_session
     = (GNUTLS_E_INTERNAL_ERROR, exhausted_session\<lparr>epochs := [0 \<mapsto> \<lparr>usage_cnt = - 1\<rparr>]\<rparr>)
   \<and> gnutls_dtls_transmit responsive_transport exhausted_session
     = Some (0, exhausted_session\<lparr>sent := [ccs_args], flushes := 1, recvs := [(0, 1000)],
                handshake_send_buffer := [], epochs := [0 \<mapsto> \<lparr>usage_cnt = - 1\<rparr>]\<rparr>)
   \<and> drop_usage_count unknown_epoch_session = (GNUTLS_E_INVALID_REQUEST, unknown_epoch_session)
   \<and> gnutls_dtls_transmit responsive_transport unknown_epoch_session
     = Some (0, unknown_epoch_session\<lparr>sent := [ccs_args], flushes := 1, recvs := [(0, 1000)],
                handshake_send_buffer := []\<rparr>)"
proof -
  have loop: "transmit_loop responsive_transport 0 0 exhausted_session
      = Some (Loop_end, 0, 1000, exhausted_session\<lparr>sent := [ccs_args], flushes := 1,
                recvs := [(0, 1000)]\<rparr>)"
    by (subst transmit_loop.simps) (simp add: example_defs constant_defs call_defs)
  have res: "gnutls_dtls_transmit responsive_transport exhausted_session
     = Some (0, exhausted_session\<lparr>sent := [ccs_args], flushes := 1, recvs := [(0, 1000)],
                handshake_send_buffer := [], epochs := [0 \<mapsto> \<lparr>usage_cnt = - 1\<rparr>]\<rparr>)"
    unfolding gnutls_dtls_transmit_def loop
    by (simp add: example_defs constant_defs call_defs)
  have drop: "drop_usage_count exhausted_session
     = (GNUTLS_E_INTERNAL_ERROR, exhausted_session\<lparr>epochs := [0 \<mapsto> \<lparr>usage_cnt = - 1\<rparr>]\<rparr>)"
    by (simp add: example_defs constant_defs call_defs)
  have loop': "transmit_loop responsive_transport 0 0 unknown_epoch_session
      = Some (Loop_end, 0, 1000, unknown_epoch_session\<lparr>sent := [ccs_args], flushes := 1,
                recvs := [(0, 1000)]\<rparr>)"
    by (subst transmit_loop.simps) (simp add: example_defs constant_defs call_defs)
  have res': "gnutls_dtls_transmit responsive_transport unknown_epoch_session
     = Some (0, unknown_epoch_session\<lparr>sent := [ccs_args], flushes := 1, recvs := [(0, 1000)],
                handshake_send_buffer := []\<rparr>)"
    unfolding gnutls_dtls_transmit_def loop'
    by (simp add: example_defs constant_defs call_defs)
  have drop': "drop_usage_count unknown_epoch_session
      = (GNUTLS_E_INVALID_REQUEST, unknown_epoch_session)"
    by (simp add: example_defs constant_defs call_defs)
  show ?thesis using res drop res' drop' by simp
qed

subsection \<open>Write errors\<close>

text \<open>
  Claim C2. A flight whose only message fails at its first fragment write:
  \<^verbatim>\<open>transmit_message\<close> stops and returns the error, \<^verbatim>\<open>_gnutls_dtls_transmit\<close> does not
  look at it, goes on to flush and wait, and returns 0. Likewise when the fragment
  buffer cannot be allocated: the memory error is returned by \<^verbatim>\<open>transmit_message\<close>
  and goes no further.
\<close>

theorem write_error_not_reported:
  "transmit_message failing_send_transport example_hello hello_session
     = Some (- 53, hello_session\<lparr>sent := [hello_fragment], mallocs := 1\<rparr>)
   \<and> gnutls_dtls_transmit failing_send_transport hello_session
     = Some (0, hello_session\<lparr>sent := [hello_fragment], mallocs := 1, flushes := 1,
                recvs := [(0, 1000)], handshake_send_buffer := [],
                epochs := [0 \<mapsto> \<lparr>usage_cnt = 1\<rparr>, 1 \<mapsto> \<lparr>usage_cnt = 1\<rparr>]\<rparr>)
   \<and> transmit_message failing_malloc_transport example_hello hello_session
     = Some (GNUTLS_E_MEMORY_ERROR, hello_session\<lparr>mallocs := 1\<rparr>)
   \<and> gnutls_dtls_transmit failing_malloc_transport hello_session
     = Some (0, hello_session\<lparr>mallocs := 1, flushes := 1,
                recvs := [(0, 1000)], handshake_send_buffer := [],
                epochs := [0 \<mapsto> \<lparr>usage_cnt = 1\<rparr>, 1 \<mapsto> \<lparr>usage_cnt = 1\<rparr>]\<rparr>)"
proof -
  have frag: "fragment_loop failing_send_transport example_hello 2 5 0 0
        (hello_session\<lparr>mallocs := 1\<rparr>)
      = Some (- 53, hello_session\<lparr>sent := [hello_fragment], mallocs := 1\<rparr>)"
    by (subst fragment_loop.simps)
      (simp add: example_defs constant_defs call_defs fragment_args_def fragment_bytes_def
        gnutls_write_uint24_def gnutls_write_uint16_def)
  have msg: "transmit_message failing_send_transport example_hello hello_session
     = Some (- 53, hello_session\<lparr>sent := [hello_fragment], mallocs := 1\<rparr>)"
    using frag by (simp add: example_defs constant_defs call_defs)
  have loop: "transmit_loop failing_send_transport 0 0 hello_session
      = Some (Loop_end, 0, 1000, hello_session\<lparr>sent := [hello_fragment], mallocs := 1,
                flushes := 1, recvs := [(0, 1000)]\<rparr>)"
    apply (subst transmit_loop.simps)
    apply (simp add: hello_session_def [of] msg [unfolded hello_session_def])
    apply (simp add: example_defs constant_defs call_defs)
    done
  have res: "gnutls_dtls_transmit failing_send_transport hello_session
     = Some (0, hello_session\<lparr>sent := [hello_fragment], mallocs := 1, flushes := 1,
                recvs := [(0, 1000)], handshake_send_buffer := [],
                epochs := [0 \<mapsto> \<lparr>usage_cnt = 1\<rparr>, 1 \<mapsto> \<lparr>usage_cnt = 1\<rparr>]\<rparr>)"
    unfolding gnutls_dtls_transmit_def loop
    by (simp add: example_defs constant_defs call_defs fun_upd_twist)
  have msg': "transmit_message failing_malloc_transport example_hello hello_session
     = Some (GNUTLS_E_MEMORY_ERROR, hello_session\<lparr>mallocs := 1\<rparr>)"
    by (simp add: example_defs constant_defs call_defs)
  have loop': "transmit_loop failing_malloc_transport 0 0 hello_session
      = Some (Loop_end, 0, 1000, hello_session\<lparr>mallocs := 1,
                flushes := 1, recvs := [(0, 1000)]\<rparr>)"
    apply (subst transmit_loop.simps)
    apply (simp add: hello_session_def [of] msg' [unfolded hello_session_def])
    apply (simp add: example_defs constant_defs call_defs)
    done
  have res': "gnutls_dtls_transmit failing_malloc_transport hello_session
     = Some (0, hello_session\<lparr>mallocs := 1, flushes := 1,
                recvs := [(0, 1000)], handshake_send_buffer := [],
                epochs := [0 \<mapsto> \<lparr>usage_cnt = 1\<rparr>, 1 \<mapsto> \<lparr>usage_cnt = 1\<rparr>]\<rparr>)"
    unfolding gnutls_dtls_transmit_def loop'
    by (simp add: example_defs constant_defs call_defs fun_upd_twist)
  show ?thesis using msg res msg' res' by simp
qed

end
